theory Spec2Isabelle
  imports Complex_Main "HOL-Library.List_Lexorder" "HOL-Library.Char_ord" "HOL-Library.Sublist"
begin

section \<open>JavaScript numbers and rounding\<close>

text \<open>
  A JavaScript number is modelled as an exact rational, or \<open>NotFinite\<close> for the values
  that \<^verbatim>\<open>Number.isFinite\<close> rejects (NaN, Infinity, -Infinity, and anything that
  \<^verbatim>\<open>Number(...)\<close> cannot parse). Arithmetic on finite values is exact: the binary rounding
  of IEEE doubles is not part of this model.
\<close>

datatype number = Finite rat | NotFinite


text \<open>\<^verbatim>\<open>Math.round(x)\<close>: the nearest integer, a tie going up.\<close>

definition Math_round :: "rat \<Rightarrow> int" where
  "Math_round x = \<lfloor>x + 1 / 2\<rfloor>"

text \<open>The idiom \<^verbatim>\<open>Math.round(x * 100) / 100\<close> used at every aggregation boundary.\<close>

definition round2 :: "rat \<Rightarrow> rat" where
  "round2 x = of_int (Math_round (x * 100)) / 100"

section \<open>Inventory aging helpers (src/src/controllers/reports.controller.js)\<close>








record layer =
  purchasedAt :: int
  quantity :: int
  effectiveUnitCost :: number

text \<open>
  \<^verbatim>\<open>applyFifo(layers, totalSold)\<close>, lines 444-461. The \<^verbatim>\<open>for\<close> loop carries the
  counter \<^verbatim>\<open>toConsume\<close> and the array \<^verbatim>\<open>remaining\<close>, to which layers are pushed.
\<close>

fun applyFifo_loop :: "layer list \<Rightarrow> int \<Rightarrow> layer list \<Rightarrow> layer list" where
  "applyFifo_loop [] toConsume remaining = remaining"
| "applyFifo_loop (l # layers) toConsume remaining =
     (let qty = quantity l;
          consume = min qty toConsume;
          toConsume' = toConsume - consume;
          remainingQty = qty - consume
      in applyFifo_loop layers toConsume'
           (if remainingQty > 0
            then remaining @ [\<lparr>purchasedAt = purchasedAt l, quantity = remainingQty,
                               effectiveUnitCost = effectiveUnitCost l\<rparr>]
            else remaining))"

definition applyFifo :: "layer list \<Rightarrow> int \<Rightarrow> layer list" where
  "applyFifo layers totalSold = applyFifo_loop layers totalSold []"

section \<open>Strings\<close>

text \<open>
  Strings are ASCII character lists. \<^verbatim>\<open>trim\<close> and \<^verbatim>\<open>parseInt\<close> skip the ASCII white
  space characters (space, tab, line feed, vertical tab, form feed, carriage return).
\<close>

definition isSpace :: "char \<Rightarrow> bool" where
  "isSpace ch = (ch = CHR '' '' \<or> (9 \<le> (of_char ch :: nat) \<and> (of_char ch :: nat) \<le> 13))"

definition trim :: "string \<Rightarrow> string" where
  "trim s = rev (dropWhile isSpace (rev (dropWhile isSpace s)))"

definition isDigit :: "char \<Rightarrow> bool" where
  "isDigit ch = (48 \<le> (of_char ch :: nat) \<and> (of_char ch :: nat) \<le> 57)"

definition digitChar :: "nat \<Rightarrow> char" where
  "digitChar d = char_of (48 + d)"

definition digitVal :: "char \<Rightarrow> nat" where
  "digitVal ch = of_char ch - 48"

text \<open>\<^verbatim>\<open>String(n)\<close> for a non-negative integer: its decimal digits.\<close>

fun showNat :: "nat \<Rightarrow> string" where
  "showNat n = (if n < 10 then [digitChar n] else showNat (n div 10) @ [digitChar (n mod 10)])"

declare showNat.simps [simp del]

text \<open>\<^verbatim>\<open>s.padStart(n, '0')\<close>.\<close>

definition padStart0 :: "nat \<Rightarrow> string \<Rightarrow> string" where
  "padStart0 n s = replicate (n - length s) CHR ''0'' @ s"

definition digitsVal :: "string \<Rightarrow> nat" where
  "digitsVal ds = foldl (\<lambda>acc ch. 10 * acc + digitVal ch) 0 ds"

text \<open>
  \<^verbatim>\<open>parseInt(s, 10)\<close>: leading white space is skipped, then an optional sign, then the
  longest run of decimal digits is read; \<open>None\<close> is NaN (no digit). The value is exact.
\<close>

definition parseInt10 :: "string \<Rightarrow> int option" where
  "parseInt10 s =
     (let s1 = dropWhile isSpace s;
          (sign, s2) = (case s1 of
                          [] \<Rightarrow> (1, s1)
                        | ch # r \<Rightarrow> if ch = CHR ''-'' then (- 1, r)
                                    else if ch = CHR ''+'' then (1, r)
                                    else (1 :: int, s1));
          ds = takeWhile isDigit s2
      in if ds = [] then None else Some (sign * int (digitsVal ds)))"

text \<open>The elements of a \<^verbatim>\<open>Set\<close> built from an array, in insertion order.\<close>

definition uniqueInOrder :: "'a list \<Rightarrow> 'a list" where
  "uniqueInOrder xs = rev (remdups (rev xs))"

section \<open>Entity store\<close>

text \<open>
  The tables the two transaction processors read and write. Monetary columns are exact
  rationals (the rounding of a DECIMAL(12,2) column on insert is not modelled). Identifiers
  that the store generates (sales, purchases) are row counters.
\<close>

datatype error =
    ItemsNotNonEmptyArray
  | PaymentsNotNonEmptyArray
  | ItemWithoutSku
  | ProductNotFound string
  | InvalidQuantity string
  | InvalidSellingPrice string
  | InsufficientStock string
  | PriceExceedsMrp string
  | DiscountExceedsLimit string
  | PaymentWithoutMode
  | PaymentAmountInvalid
  | PaymentMismatch
  | UniqueConstraintFailed string
  | SupplierIdRequired
  | ExtraChargesInvalid
  | VariantIdRequired nat
  | QuantityNotPositiveInteger nat
  | UnitCostInvalid nat
  | TotalQuantityNotPositive
  | SupplierNotFound
  | VariantNotFound string
  | PurchasedAtInvalid
  | ForeignKeyFailed string
  | StoreRejectsValue
  | NoMatchingProduct string

record productVariant =
  variant_id :: string
  mrp :: number
  default_selling_price :: number
  max_discount_percent :: number

record product =
  product_id :: string
  sku :: string
  productVariantId :: string
  supplierId :: string
  quantityInStock :: int

record sale =
  sale_id :: nat
  billNumber :: string
  totalAmount :: rat
  soldAt :: int

record saleItem =
  si_saleId :: nat
  si_productId :: string
  si_quantity :: int
  si_unitPrice :: rat
  si_lineTotal :: rat

record payment =
  pay_saleId :: nat
  pay_mode :: string
  pay_provider :: "string option"
  pay_amount :: rat

record purchase =
  purchase_id :: nat
  pu_supplierId :: string
  pu_purchasedAt :: int
  pu_invoiceNo :: "string option"
  pu_notes :: "string option"
  pu_extraCharges :: "rat option"

record purchaseItem =
  pi_purchaseId :: nat
  pi_productVariantId :: string
  pi_quantity :: int
  pi_unitCost :: rat
  pi_effectiveUnitCost :: rat

record store =
  suppliers :: "string list"
  variants :: "productVariant list"
  products :: "product list"
  sales :: "sale list"
  saleItems :: "saleItem list"
  payments :: "payment list"
  purchases :: "purchase list"
  purchaseItems :: "purchaseItem list"

text \<open>
  \<^verbatim>\<open>prisma.$transaction(body)\<close>: the body runs against the store and may have written to it
  when it throws; the store then keeps its state from before the transaction.
\<close>

definition transaction :: "(store \<Rightarrow> store \<times> (error + 'r)) \<Rightarrow> store \<Rightarrow> store \<times> (error + 'r)" where
  "transaction body db =
     (case body db of
        (db', Inr r) \<Rightarrow> (db', Inr r)
      | (db', Inl e) \<Rightarrow> (db, Inl e))"

text \<open>The current time with its local calendar fields, as \<^verbatim>\<open>new Date()\<close> gives them.\<close>

record jsDate =
  timeValue :: int
  fullYear :: nat
  monthIndex :: nat
  dayOfMonth :: nat

section \<open>Sale transaction (the sale service, src/src/services/health.js)\<close>

text \<open>
  The request body after \<^verbatim>\<open>Number(...)\<close> has been applied to its numeric fields. A missing
  or falsy \<^verbatim>\<open>sku\<close> or \<^verbatim>\<open>mode\<close> is the empty string.
\<close>

record saleItemInput =
  item_sku :: string
  item_quantity :: number
  item_sellingPrice :: number

record paymentInput =
  p_mode :: string
  p_provider :: "string option"
  p_amount :: number

record salePayload =
  sp_items :: "saleItemInput list"
  sp_payments :: "paymentInput list"

record lineTotalRow =
  row_product :: product
  row_quantity :: int
  row_unitPrice :: rat
  row_lineTotal :: rat

record normalizedPayment =
  np_mode :: string
  np_provider :: "string option"
  np_amount :: rat

record validated =
  lineTotals :: "lineTotalRow list"
  normalizedPayments :: "normalizedPayment list"
  v_totalAmount :: rat

record saleResult =
  saleId :: nat
  r_billNumber :: string
  r_totalAmount :: rat
  r_soldAt :: int

text \<open>\<^verbatim>\<open>const PAYMENT_SUM_TOLERANCE = 1; // allow 1 cent rounding\<close> (line 13).\<close>

definition PAYMENT_SUM_TOLERANCE :: rat where
  "PAYMENT_SUM_TOLERANCE = 1"

text \<open>
  \<^verbatim>\<open>tx.product.findMany({ where: { sku: { in: skus } } })\<close> followed by
  \<^verbatim>\<open>Object.fromEntries\<close>, in which a later entry with the same key wins (lines 33-38).
  Keys that a JavaScript object inherits from its prototype are not modelled.
\<close>

definition productsBySku :: "store \<Rightarrow> string list \<Rightarrow> string \<Rightarrow> product option" where
  "productsBySku db skus =
     map_of (rev (map (\<lambda>p. (sku p, p)) (filter (\<lambda>p. sku p \<in> set skus) (products db))))"

text \<open>The first loop over the items (lines 41-47).\<close>

fun validateSkus :: "(string \<Rightarrow> product option) \<Rightarrow> saleItemInput list \<Rightarrow> error option" where
  "validateSkus bySku [] = None"
| "validateSkus bySku (it # its) =
     (if item_sku it = [] then Some ItemWithoutSku
      else if bySku (item_sku it) = None then Some (ProductNotFound (item_sku it))
      else validateSkus bySku its)"

text \<open>
  The discount rules of lines 71-89 for one item, on the selling price, the variant's MRP
  and its maximum discount percentage. A missing or non-finite MRP skips both checks; a
  non-finite maximum skips the discount check.
\<close>

definition validatePricing :: "string \<Rightarrow> rat \<Rightarrow> number \<Rightarrow> number \<Rightarrow> error option" where
  "validatePricing s sellingPrice mrpN maxDiscountPercent =
     (case mrpN of
        NotFinite \<Rightarrow> None
      | Finite m \<Rightarrow>
          if sellingPrice > m then Some (PriceExceedsMrp s)
          else (case maxDiscountPercent of
                  NotFinite \<Rightarrow> None
                | Finite maxPct \<Rightarrow>
                    if m > 0 \<and> ((m - sellingPrice) / m) * 100 > maxPct
                    then Some (DiscountExceedsLimit s)
                    else None))"

text \<open>
  \<^verbatim>\<open>product.productVariant?.mrp\<close> and
  \<^verbatim>\<open>product.productVariant?.max_discount_percent ?? 0\<close> (lines 72-73), the variant being
  the row that the product's \<^verbatim>\<open>productVariantId\<close> refers to.
\<close>

definition variantOf :: "store \<Rightarrow> product \<Rightarrow> productVariant option" where
  "variantOf db p = find (\<lambda>v. variant_id v = productVariantId p) (variants db)"

definition mrpOf :: "productVariant option \<Rightarrow> number" where
  "mrpOf v = (case v of None \<Rightarrow> NotFinite | Some pv \<Rightarrow> mrp pv)"

definition maxDiscountPercentOf :: "productVariant option \<Rightarrow> number" where
  "maxDiscountPercentOf v = (case v of None \<Rightarrow> Finite 0 | Some pv \<Rightarrow> max_discount_percent pv)"

text \<open>\<^verbatim>\<open>Number.isInteger\<close> on a finite number.\<close>

definition isInteger :: "rat \<Rightarrow> bool" where
  "isInteger q = (of_int \<lfloor>q\<rfloor> = q)"

text \<open>
  The second loop over the items (lines 52-100), carrying \<^verbatim>\<open>lineTotals\<close> and
  \<^verbatim>\<open>totalAmount\<close>. Every item reads the product row fetched before the loop. The first
  branch cannot be taken after \<open>validateSkus\<close> has passed.
\<close>

fun itemsLoop ::
  "store \<Rightarrow> (string \<Rightarrow> product option) \<Rightarrow> saleItemInput list \<Rightarrow> lineTotalRow list \<Rightarrow> rat
   \<Rightarrow> error + (lineTotalRow list \<times> rat)" where
  "itemsLoop db bySku [] lts running = Inr (lts, running)"
| "itemsLoop db bySku (it # its) lts running =
     (case bySku (item_sku it) of
        None \<Rightarrow> Inl (ProductNotFound (item_sku it))
      | Some pr \<Rightarrow>
         (case item_quantity it of
            NotFinite \<Rightarrow> Inl (InvalidQuantity (item_sku it))
          | Finite qty \<Rightarrow>
             if \<not> isInteger qty \<or> qty < 1 then Inl (InvalidQuantity (item_sku it))
             else
              (case item_sellingPrice it of
                 NotFinite \<Rightarrow> Inl (InvalidSellingPrice (item_sku it))
               | Finite sellingPrice \<Rightarrow>
                  if sellingPrice < 0 then Inl (InvalidSellingPrice (item_sku it))
                  else if of_int (quantityInStock pr) < qty
                  then Inl (InsufficientStock (item_sku it))
                  else
                   (case validatePricing (item_sku it) sellingPrice
                           (mrpOf (variantOf db pr)) (maxDiscountPercentOf (variantOf db pr)) of
                      Some e \<Rightarrow> Inl e
                    | None \<Rightarrow>
                       (let lineTotal = round2 (qty * sellingPrice)
                        in itemsLoop db bySku its
                             (lts @ [\<lparr>row_product = pr, row_quantity = \<lfloor>qty\<rfloor>,
                                      row_unitPrice = sellingPrice, row_lineTotal = lineTotal\<rparr>])
                             (running + lineTotal))))))"

text \<open>The loop over the payments (lines 104-117).\<close>

fun paymentsLoop ::
  "paymentInput list \<Rightarrow> rat \<Rightarrow> normalizedPayment list \<Rightarrow> error + (rat \<times> normalizedPayment list)" where
  "paymentsLoop [] paymentSum nps = Inr (paymentSum, nps)"
| "paymentsLoop (p # ps) paymentSum nps =
     (if p_mode p = [] then Inl PaymentWithoutMode
      else (case p_amount p of
              NotFinite \<Rightarrow> Inl PaymentAmountInvalid
            | Finite amount \<Rightarrow>
                if amount < 0 then Inl PaymentAmountInvalid
                else paymentsLoop ps (paymentSum + amount)
                       (nps @ [\<lparr>np_mode = trim (p_mode p),
                                np_provider = map_option trim (p_provider p),
                                np_amount = amount\<rparr>])))"

text \<open>\<^verbatim>\<open>validateAndCompute(tx, items, payments)\<close>, lines 25-126. It only reads the store.\<close>

definition validateAndCompute :: "store \<Rightarrow> saleItemInput list \<Rightarrow> paymentInput list \<Rightarrow> error + validated" where
  "validateAndCompute db its pays =
     (if its = [] then Inl ItemsNotNonEmptyArray
      else if pays = [] then Inl PaymentsNotNonEmptyArray
      else
       (let skus = uniqueInOrder (filter (\<lambda>s. s \<noteq> []) (map item_sku its));
            bySku = productsBySku db skus
        in case validateSkus bySku its of
             Some e \<Rightarrow> Inl e
           | None \<Rightarrow>
              (case itemsLoop db bySku its [] 0 of
                 Inl e \<Rightarrow> Inl e
               | Inr (lts, running) \<Rightarrow>
                  (let totalAmount = round2 running
                   in case paymentsLoop pays 0 [] of
                        Inl e \<Rightarrow> Inl e
                      | Inr (psum, nps) \<Rightarrow>
                         (let paymentSum = round2 psum
                          in if \<bar>paymentSum - totalAmount\<bar> > PAYMENT_SUM_TOLERANCE
                             then Inl PaymentMismatch
                             else Inr \<lparr>lineTotals = lts, normalizedPayments = nps,
                                       v_totalAmount = totalAmount\<rparr>)))))"

text \<open>The prefix \<^verbatim>\<open>BILL-${yyyy}${mm}${dd}-\<close> of lines 144-148.\<close>

definition billPrefix :: "jsDate \<Rightarrow> string" where
  "billPrefix now =
     ''BILL-'' @ showNat (fullYear now) @ padStart0 2 (showNat (monthIndex now + 1))
       @ padStart0 2 (showNat (dayOfMonth now)) @ ''-''"

text \<open>
  \<^verbatim>\<open>tx.sale.findFirst({ where: { billNumber: { startsWith: prefix } },
  orderBy: { billNumber: 'desc' } })\<close> (lines 150-154): the greatest bill number, in the order
  of strings, among those that start with the prefix.
\<close>

definition lastBillNumber :: "store \<Rightarrow> string \<Rightarrow> string option" where
  "lastBillNumber db pre =
     (case filter (prefix pre) (map billNumber (sales db)) of
        [] \<Rightarrow> None
      | b # bs \<Rightarrow> Some (fold max bs b))"

text \<open>The sequence number of lines 156-161.\<close>

definition nextSeq :: "string \<Rightarrow> string option \<Rightarrow> nat" where
  "nextSeq pre lastSale =
     (case lastSale of
        None \<Rightarrow> 1
      | Some b \<Rightarrow>
          if b = [] then 1
          else (case parseInt10 (drop (length pre) b) of
                  None \<Rightarrow> 1
                | Some n \<Rightarrow> if n \<ge> 0 then nat (n + 1) else 1))"

text \<open>\<^verbatim>\<open>tx.product.update({ where: { id }, data: { quantityInStock: { decrement } } })\<close>.\<close>

definition decrementStock :: "string \<Rightarrow> int \<Rightarrow> store \<Rightarrow> store" where
  "decrementStock pid n db =
     db\<lparr>products :=
          map (\<lambda>p. if product_id p = pid then p\<lparr>quantityInStock := quantityInStock p - n\<rparr> else p)
            (products db)\<rparr>"

text \<open>
  The body of the transaction in \<^verbatim>\<open>createSale\<close> (lines 136-213). The \<^verbatim>\<open>Sale\<close> table has
  a unique index on \<^verbatim>\<open>billNumber\<close>, so the insert fails on a bill number already present.
\<close>

definition saleBody :: "jsDate \<Rightarrow> salePayload \<Rightarrow> store \<Rightarrow> store \<times> (error + saleResult)" where
  "saleBody now payload db =
     (case validateAndCompute db (sp_items payload) (sp_payments payload) of
        Inl e \<Rightarrow> (db, Inl e)
      | Inr v \<Rightarrow>
         (let pre = billPrefix now;
              seq = nextSeq pre (lastBillNumber db pre);
              bill = pre @ padStart0 4 (showNat seq)
          in if bill \<in> set (map billNumber (sales db)) then (db, Inl (UniqueConstraintFailed bill))
             else
              (let s = \<lparr>sale_id = length (sales db), billNumber = bill,
                        totalAmount = v_totalAmount v, soldAt = timeValue now\<rparr>;
                   db1 = db\<lparr>sales := sales db @ [s]\<rparr>;
                   db2 = db1\<lparr>saleItems := saleItems db1 @
                           map (\<lambda>row. \<lparr>si_saleId = sale_id s,
                                        si_productId = product_id (row_product row),
                                        si_quantity = row_quantity row,
                                        si_unitPrice = row_unitPrice row,
                                        si_lineTotal = row_lineTotal row\<rparr>) (lineTotals v)\<rparr>;
                   db3 = fold (\<lambda>row. decrementStock (product_id (row_product row)) (row_quantity row))
                           (lineTotals v) db2;
                   db4 = db3\<lparr>payments := payments db3 @
                           map (\<lambda>p. \<lparr>pay_saleId = sale_id s, pay_mode = np_mode p,
                                      pay_provider = np_provider p, pay_amount = np_amount p\<rparr>)
                             (normalizedPayments v)\<rparr>
               in (db4, Inr \<lparr>saleId = sale_id s, r_billNumber = billNumber s,
                              r_totalAmount = v_totalAmount v, r_soldAt = soldAt s\<rparr>))))"

definition createSale :: "jsDate \<Rightarrow> salePayload \<Rightarrow> store \<Rightarrow> store \<times> (error + saleResult)" where
  "createSale now payload db = transaction (saleBody now payload) db"

section \<open>Purchase transaction (the purchase service, src/unnamed/part_005)\<close>

text \<open>
  The request body after \<^verbatim>\<open>Number(...)\<close> has been applied to its numeric fields;
  \<^verbatim>\<open>extraCharges\<close> is \<open>Finite 0\<close> when absent. A missing or falsy identifier is the empty
  string. \<^verbatim>\<open>purchasedAt\<close> is absent (or falsy), a valid date, or an invalid one.
\<close>

datatype dateInput = NoDate | DateValue int | InvalidDate

record purchaseItemInput =
  pin_productVariantId :: string
  pin_quantity :: number
  pin_unitCost :: number

record purchasePayload =
  pp_supplierId :: string
  pp_purchasedAt :: dateInput
  pp_invoiceNo :: "string option"
  pp_notes :: "string option"
  pp_extraCharges :: number
  pp_items :: "purchaseItemInput list"

record purchaseResult =
  purchaseId :: nat

text \<open>The validation loop of lines 37-44, with the index of the item.\<close>

fun validateItems :: "nat \<Rightarrow> purchaseItemInput list \<Rightarrow> error option" where
  "validateItems i [] = None"
| "validateItems i (it # its) =
     (if pin_productVariantId it = [] then Some (VariantIdRequired i)
      else (case pin_quantity it of
              NotFinite \<Rightarrow> Some (QuantityNotPositiveInteger i)
            | Finite qty \<Rightarrow>
                if \<not> isInteger qty \<or> qty < 1 then Some (QuantityNotPositiveInteger i)
                else (case pin_unitCost it of
                        NotFinite \<Rightarrow> Some (UnitCostInvalid i)
                      | Finite cost \<Rightarrow>
                          if cost < 0 then Some (UnitCostInvalid i)
                          else validateItems (Suc i) its)))"

text \<open>Addition of numbers: a non-finite operand gives a non-finite sum.\<close>

fun addNumber :: "number \<Rightarrow> number \<Rightarrow> number" where
  "addNumber (Finite a) (Finite b) = Finite (a + b)"
| "addNumber _ _ = NotFinite"

text \<open>\<^verbatim>\<open>items.reduce((sum, i) => sum + Number(i.quantity), 0)\<close> (line 46).\<close>

definition totalQuantity :: "purchaseItemInput list \<Rightarrow> number" where
  "totalQuantity its = foldl (\<lambda>acc i. addNumber acc (pin_quantity i)) (Finite 0) its"

text \<open>
  \<^verbatim>\<open>tx.product.updateMany({ where: { productVariantId, supplierId }, data: {
  quantityInStock: { increment } } })\<close>: every matching row is incremented.
\<close>

definition incrementStock :: "string \<Rightarrow> string \<Rightarrow> int \<Rightarrow> store \<Rightarrow> store" where
  "incrementStock vid sid n db =
     db\<lparr>products :=
          map (\<lambda>p. if productVariantId p = vid \<and> supplierId p = sid
                    then p\<lparr>quantityInStock := quantityInStock p + n\<rparr> else p)
            (products db)\<rparr>"

text \<open>
  The loop over the items inside the transaction (lines 81-118). It returns the store as
  written so far together with the error, if one was thrown. \<^verbatim>\<open>PurchaseItem\<close> has a
  foreign key to \<^verbatim>\<open>ProductVariant\<close>. The last branch cannot be taken after
  \<open>validateItems\<close> has passed.
\<close>

fun purchaseItemsLoop ::
  "nat \<Rightarrow> string \<Rightarrow> number \<Rightarrow> rat \<Rightarrow> purchaseItemInput list \<Rightarrow> store \<Rightarrow> store \<times> error option" where
  "purchaseItemsLoop pid sid totalQty extraChargesVal [] db = (db, None)"
| "purchaseItemsLoop pid sid totalQty extraChargesVal (it # its) db =
     (case (pin_quantity it, pin_unitCost it) of
        (Finite qty, Finite unitCost) \<Rightarrow>
          (let vid = trim (pin_productVariantId it);
               allocatedCharge = (case totalQty of
                                    Finite t \<Rightarrow> if t > 0 then (qty / t) * extraChargesVal else 0
                                  | NotFinite \<Rightarrow> 0);
               effective = (if qty > 0 then (unitCost * qty + allocatedCharge) / qty else unitCost);
               effectiveRounded = round2 effective
           in if vid \<notin> set (map variant_id (variants db)) then (db, Some (ForeignKeyFailed vid))
              else
               (let db1 = db\<lparr>purchaseItems := purchaseItems db @
                             [\<lparr>pi_purchaseId = pid, pi_productVariantId = vid,
                               pi_quantity = \<lfloor>qty\<rfloor>, pi_unitCost = unitCost,
                               pi_effectiveUnitCost = effectiveRounded\<rparr>]\<rparr>;
                    updatedCount = length (filter (\<lambda>p. productVariantId p = vid \<and> supplierId p = sid)
                                             (products db1));
                    db2 = incrementStock vid sid \<lfloor>qty\<rfloor> db1
                in if updatedCount = 0 then (db2, Some (NoMatchingProduct vid))
                   else purchaseItemsLoop pid sid totalQty extraChargesVal its db2))
      | _ \<Rightarrow> (db, Some StoreRejectsValue))"

text \<open>\<^verbatim>\<open>String(x).trim() || null\<close> on an optional field (lines 73-74).\<close>

definition trimOrNull :: "string option \<Rightarrow> string option" where
  "trimOrNull x = (case x of None \<Rightarrow> None | Some s \<Rightarrow> if trim s = [] then None else Some (trim s))"

text \<open>The body of the transaction in \<^verbatim>\<open>createPurchase\<close> (lines 49-121).\<close>

definition purchaseBody ::
  "jsDate \<Rightarrow> purchasePayload \<Rightarrow> number \<Rightarrow> rat \<Rightarrow> store \<Rightarrow> store \<times> (error + purchaseResult)" where
  "purchaseBody now payload totalQty extraNum db =
     (let sid = trim (pp_supplierId payload)
      in if sid \<notin> set (suppliers db) then (db, Inl SupplierNotFound)
         else
          (let variantIds = uniqueInOrder
                 (filter (\<lambda>s. s \<noteq> []) (map (\<lambda>i. trim (pin_productVariantId i)) (pp_items payload)))
           in case find (\<lambda>v. v \<notin> set (map variant_id (variants db))) variantIds of
                Some v \<Rightarrow> (db, Inl (VariantNotFound v))
              | None \<Rightarrow>
                 (case (case pp_purchasedAt payload of
                          NoDate \<Rightarrow> Some (timeValue now)
                        | DateValue t \<Rightarrow> Some t
                        | InvalidDate \<Rightarrow> None) of
                    None \<Rightarrow> (db, Inl PurchasedAtInvalid)
                  | Some purchasedAtDate \<Rightarrow>
                     (let p = \<lparr>purchase_id = length (purchases db), pu_supplierId = sid,
                               pu_purchasedAt = purchasedAtDate,
                               pu_invoiceNo = trimOrNull (pp_invoiceNo payload),
                               pu_notes = trimOrNull (pp_notes payload),
                               pu_extraCharges = (if extraNum = 0 then None else Some extraNum)\<rparr>;
                          db1 = db\<lparr>purchases := purchases db @ [p]\<rparr>
                      in case purchaseItemsLoop (purchase_id p) sid totalQty extraNum
                                (pp_items payload) db1 of
                           (db2, Some e) \<Rightarrow> (db2, Inl e)
                         | (db2, None) \<Rightarrow> (db2, Inr \<lparr>purchaseId = purchase_id p\<rparr>)))))"

text \<open>\<^verbatim>\<open>createPurchase(payload)\<close>: the input validation of lines 24-47, then the transaction.\<close>

definition createPurchase :: "jsDate \<Rightarrow> purchasePayload \<Rightarrow> store \<Rightarrow> store \<times> (error + purchaseResult)" where
  "createPurchase now payload db =
     (if trim (pp_supplierId payload) = [] then (db, Inl SupplierIdRequired)
      else if pp_items payload = [] then (db, Inl ItemsNotNonEmptyArray)
      else (case pp_extraCharges payload of
              NotFinite \<Rightarrow> (db, Inl ExtraChargesInvalid)
            | Finite extraNum \<Rightarrow>
                if extraNum < 0 then (db, Inl ExtraChargesInvalid)
                else (case validateItems 0 (pp_items payload) of
                        Some e \<Rightarrow> (db, Inl e)
                      | None \<Rightarrow>
                         (let totalQty = totalQuantity (pp_items payload)
                          in if (case totalQty of Finite t \<Rightarrow> t \<le> 0 | NotFinite \<Rightarrow> False)
                             then (db, Inl TotalQuantityNotPositive)
                             else transaction (purchaseBody now payload totalQty extraNum) db))))"

section \<open>Sequential issuance of bill numbers\<close>

text \<open>
  The property of a store that, for every day, the bill numbers that start with the day's
  prefix are the numbers 1 to m in the order of issue, for some m.
\<close>

definition issuedInSequence :: "store \<Rightarrow> bool" where
  "issuedInSequence db =
     (\<forall>now. \<exists>m. filter (prefix (billPrefix now)) (map billNumber (sales db))
                  = map (\<lambda>k. billPrefix now @ padStart0 4 (showNat k)) [1..<Suc m])"

section \<open>Example data\<close>

text \<open>
  The variant, product and supplier of \<^verbatim>\<open>prisma/seed.js\<close> (MRP 2500, default selling
  price 2200, maximum discount 20 percent, 9 units in stock after the seeded sale), and a
  second variant and product of the same supplier. No sale of the day has been issued.
\<close>

abbreviation exampleStore :: store where
  "exampleStore \<equiv>
     \<lparr>suppliers = [''SUP-01''],
      variants = [\<lparr>variant_id = ''VAR-SAREE-RED'', mrp = Finite 2500,
                   default_selling_price = Finite 2200, max_discount_percent = Finite 20\<rparr>,
                  \<lparr>variant_id = ''VAR-SAREE-BLUE'', mrp = Finite 3000,
                   default_selling_price = Finite 2800, max_discount_percent = Finite 10\<rparr>],
      products = [\<lparr>product_id = ''P1'', sku = ''saree-red-ban-0001'',
                   productVariantId = ''VAR-SAREE-RED'', supplierId = ''SUP-01'',
                   quantityInStock = 9\<rparr>,
                  \<lparr>product_id = ''P2'', sku = ''saree-blu-ban-0001'',
                   productVariantId = ''VAR-SAREE-BLUE'', supplierId = ''SUP-01'',
                   quantityInStock = 4\<rparr>],
      sales = [], saleItems = [], payments = [], purchases = [], purchaseItems = []\<rparr>"

abbreviation exampleNow :: jsDate where
  "exampleNow \<equiv> \<lparr>timeValue = 1770278400000, fullYear = 2026, monthIndex = 1, dayOfMonth = 5\<rparr>"

abbreviation saleOf :: "(string \<times> rat \<times> rat) list \<Rightarrow> rat \<Rightarrow> salePayload" where
  "saleOf its paid \<equiv>
     \<lparr>sp_items = map (\<lambda>(s, q, p). \<lparr>item_sku = s, item_quantity = Finite q,
                                        item_sellingPrice = Finite p\<rparr>) its,
      sp_payments = [\<lparr>p_mode = ''CASH'', p_provider = None, p_amount = Finite paid\<rparr>]\<rparr>"

abbreviation purchaseOf :: "(string \<times> rat \<times> rat) list \<Rightarrow> rat \<Rightarrow> purchasePayload" where
  "purchaseOf its extra \<equiv>
     \<lparr>pp_supplierId = ''SUP-01'', pp_purchasedAt = NoDate, pp_invoiceNo = None,
      pp_notes = None, pp_extraCharges = Finite extra,
      pp_items = map (\<lambda>(v, q, c). \<lparr>pin_productVariantId = v, pin_quantity = Finite q,
                                       pin_unitCost = Finite c\<rparr>) its\<rparr>"

section \<open>Evaluating floors of numeral fractions\<close>

lemma floor_numeral_div_rat [simp]:
  "\<lfloor>(numeral a :: rat) / numeral b\<rfloor> = numeral a div numeral b"
  using floor_divide_of_int_eq [of "numeral a" "numeral b", where ?'a = rat] by simp

lemma floor_neg_numeral_div_rat [simp]:
  "\<lfloor>- (numeral a :: rat) / numeral b\<rfloor> = - numeral a div numeral b"
  using floor_divide_of_int_eq [of "- numeral a" "numeral b", where ?'a = rat] by simp

section \<open>FIFO layer consumption\<close>

lemma applyFifo_loop_acc:
  "applyFifo_loop ls c acc = acc @ applyFifo_loop ls c []"
proof (induction ls arbitrary: c acc)
  case Nil
  show ?case by simp
next
  case (Cons l ls)
  show ?case
    using Cons.IH [of _ "acc @ [_]"] Cons.IH [of _ "[_]"] Cons.IH [of _ acc]
    by (simp add: Let_def)
qed

lemma applyFifo_Nil: "applyFifo [] c = []"
  by (simp add: applyFifo_def)

lemma applyFifo_dropped:
  "quantity l \<le> c \<Longrightarrow> applyFifo (l # ls) c = applyFifo ls (c - quantity l)"
  by (simp add: applyFifo_def Let_def min_def)

lemma applyFifo_partial:
  "c < quantity l \<Longrightarrow>
   applyFifo (l # ls) c =
     \<lparr>purchasedAt = purchasedAt l, quantity = quantity l - c,
      effectiveUnitCost = effectiveUnitCost l\<rparr> # applyFifo ls 0"
  using applyFifo_loop_acc [of ls 0 "[_]"]
  by (simp add: applyFifo_def Let_def min_def)

lemma applyFifo_exhausted:
  "\<forall>x \<in> set ls. 0 < quantity x \<Longrightarrow> applyFifo ls 0 = ls"
proof (induction ls)
  case Nil
  show ?case by (simp add: applyFifo_Nil)
next
  case (Cons l ls)
  then have "0 < quantity l" and "applyFifo ls 0 = ls" by simp_all
  then show ?case by (simp add: applyFifo_partial)
qed

text \<open>
  Claim C3. The FIFO walk, oldest layer first: a layer whose quantity is at most the
  remaining counter is dropped and the counter is reduced by it; a layer larger than the
  counter is kept with quantity minus counter, with its purchase date and cost, and the
  counter is exhausted; once the counter is zero every later layer (of positive quantity,
  as purchase items are) passes through unchanged. Layers (t1,10,5), (t2,5,6) with 12 sold
  leave exactly (t2,3,6).
\<close>

theorem applyFifo_walk:
  "(quantity l \<le> c \<longrightarrow> applyFifo (l # ls) c = applyFifo ls (c - quantity l))
   \<and> (c < quantity l \<longrightarrow>
        applyFifo (l # ls) c =
          \<lparr>purchasedAt = purchasedAt l, quantity = quantity l - c,
           effectiveUnitCost = effectiveUnitCost l\<rparr> # applyFifo ls 0)
   \<and> ((\<forall>x \<in> set ls. 0 < quantity x) \<longrightarrow> applyFifo ls 0 = ls)
   \<and> applyFifo [] c = []
   \<and> applyFifo [\<lparr>purchasedAt = t1, quantity = 10, effectiveUnitCost = Finite 5\<rparr>,
                \<lparr>purchasedAt = t2, quantity = 5, effectiveUnitCost = Finite 6\<rparr>] 12
       = [\<lparr>purchasedAt = t2, quantity = 3, effectiveUnitCost = Finite 6\<rparr>]"
proof -
  have "applyFifo [\<lparr>purchasedAt = t1, quantity = 10, effectiveUnitCost = Finite 5\<rparr>,
                   \<lparr>purchasedAt = t2, quantity = 5, effectiveUnitCost = Finite 6\<rparr>] 12
        = [\<lparr>purchasedAt = t2, quantity = 3, effectiveUnitCost = Finite 6\<rparr>]"
    by (simp add: applyFifo_def Let_def)
  then show ?thesis
    using applyFifo_dropped [of l c ls] applyFifo_partial [of c l ls]
      applyFifo_exhausted [of ls] applyFifo_Nil [of c]
    by blast
qed

theorem applyFifo_walk_witness:
  "applyFifo [\<lparr>purchasedAt = 1, quantity = 10, effectiveUnitCost = Finite 5\<rparr>,
              \<lparr>purchasedAt = 2, quantity = 5, effectiveUnitCost = Finite 6\<rparr>,
              \<lparr>purchasedAt = 3, quantity = 4, effectiveUnitCost = Finite 7\<rparr>] 12
   = [\<lparr>purchasedAt = 2, quantity = 3, effectiveUnitCost = Finite 6\<rparr>,
      \<lparr>purchasedAt = 3, quantity = 4, effectiveUnitCost = Finite 7\<rparr>]"
proof -
  let ?l1 = "\<lparr>purchasedAt = 1, quantity = 10, effectiveUnitCost = Finite 5\<rparr>"
  let ?l2 = "\<lparr>purchasedAt = 2, quantity = 5, effectiveUnitCost = Finite 6\<rparr>"
  let ?l3 = "\<lparr>purchasedAt = 3, quantity = 4, effectiveUnitCost = Finite 7\<rparr>"
  have a: "applyFifo [?l1, ?l2, ?l3] 12 = applyFifo [?l2, ?l3] 2"
    using applyFifo_walk [of ?l1 12 "[?l2, ?l3]"] by simp
  have b: "applyFifo [?l2, ?l3] 2
           = \<lparr>purchasedAt = 2, quantity = 3, effectiveUnitCost = Finite 6\<rparr> # applyFifo [?l3] 0"
    using applyFifo_walk [of ?l2 2 "[?l3]"] by simp
  have c: "applyFifo [?l3] 0 = [?l3]"
    using applyFifo_walk [of ?l2 2 "[?l3]"] by simp
  show ?thesis using a b c by simp
qed

lemma applyFifo_sum:
  "\<forall>l \<in> set ls. 0 < quantity l \<Longrightarrow> 0 \<le> c \<Longrightarrow>
   sum_list (map quantity (applyFifo ls c)) = max 0 (sum_list (map quantity ls) - c)"
proof (induction ls arbitrary: c)
  case Nil
  then show ?case by (simp add: applyFifo_Nil)
next
  case (Cons l ls)
  have pos: "\<forall>x \<in> set ls. 0 < quantity x" using Cons.prems by simp
  have nonneg: "0 \<le> sum_list (map quantity ls)"
    using pos by (intro sum_list_nonneg) auto
  show ?case
  proof (cases "quantity l \<le> c")
    case True
    then have "0 \<le> c - quantity l" by simp
    from Cons.IH [OF pos this] True show ?thesis
      by (simp add: applyFifo_dropped algebra_simps)
  next
    case False
    then have "c < quantity l" by simp
    then show ?thesis
      using nonneg pos by (simp add: applyFifo_partial applyFifo_exhausted)
  qed
qed

lemma applyFifo_suffix:
  "\<forall>l \<in> set ls. 0 < quantity l \<Longrightarrow> 0 \<le> c \<Longrightarrow>
   \<exists>k \<le> length ls.
     list_all2 (\<lambda>out orig. purchasedAt out = purchasedAt orig
                    \<and> effectiveUnitCost out = effectiveUnitCost orig
                    \<and> 0 < quantity out \<and> quantity out \<le> quantity orig)
       (applyFifo ls c) (drop k ls)"
proof (induction ls arbitrary: c)
  case Nil
  then show ?case by (simp add: applyFifo_Nil)
next
  case (Cons l ls)
  have pos: "\<forall>x \<in> set ls. 0 < quantity x" using Cons.prems by simp
  show ?case
  proof (cases "quantity l \<le> c")
    case True
    then have "0 \<le> c - quantity l" by simp
    from Cons.IH [OF pos this] obtain k where k: "k \<le> length ls"
      "list_all2 (\<lambda>out orig. purchasedAt out = purchasedAt orig
                    \<and> effectiveUnitCost out = effectiveUnitCost orig
                    \<and> 0 < quantity out \<and> quantity out \<le> quantity orig)
         (applyFifo ls (c - quantity l)) (drop k ls)" by blast
    show ?thesis
      using k True by (intro exI [of _ "Suc k"]) (simp add: applyFifo_dropped)
  next
    case False
    then have lt: "c < quantity l" by simp
    have "list_all2 (\<lambda>out orig. purchasedAt out = purchasedAt orig
                    \<and> effectiveUnitCost out = effectiveUnitCost orig
                    \<and> 0 < quantity out \<and> quantity out \<le> quantity orig) ls ls"
      using pos by (simp add: list_all2_same)
    then show ?thesis
      using lt pos Cons.prems(2)
      by (intro exI [of _ 0]) (simp add: applyFifo_partial applyFifo_exhausted)
  qed
qed

text \<open>
  Claim C10. For layers of positive quantity and a non-negative number of units sold, FIFO
  consumption conserves stock: the remaining quantities add up to the purchased total minus
  the units sold, or to zero when more was sold than purchased; and the remaining layers
  are, in order and one for one, a final segment of the input layers, each with the purchase
  date and unit cost of its original and a positive quantity not above the original's.
\<close>

theorem applyFifo_conserves:
  assumes "\<forall>l \<in> set ls. 0 < quantity l" and "0 \<le> totalSold"
  shows "sum_list (map quantity (applyFifo ls totalSold))
           = max 0 (sum_list (map quantity ls) - totalSold)
         \<and> (\<exists>k \<le> length ls.
               list_all2 (\<lambda>out orig. purchasedAt out = purchasedAt orig
                              \<and> effectiveUnitCost out = effectiveUnitCost orig
                              \<and> 0 < quantity out \<and> quantity out \<le> quantity orig)
                 (applyFifo ls totalSold) (drop k ls))"
  using applyFifo_sum [OF assms] applyFifo_suffix [OF assms] by blast

theorem applyFifo_conserves_witness:
  "0 < quantity \<lparr>purchasedAt = 1, quantity = 10, effectiveUnitCost = Finite 5\<rparr>
   \<and> 0 < quantity \<lparr>purchasedAt = 2, quantity = 5, effectiveUnitCost = Finite 6\<rparr>
   \<and> (0::int) \<le> 12
   \<and> sum_list (map quantity
        (applyFifo [\<lparr>purchasedAt = 1, quantity = 10, effectiveUnitCost = Finite 5\<rparr>,
                    \<lparr>purchasedAt = 2, quantity = 5, effectiveUnitCost = Finite 6\<rparr>] 12)) = 3"
proof -
  let ?ls = "[\<lparr>purchasedAt = 1, quantity = 10, effectiveUnitCost = Finite 5\<rparr>,
              \<lparr>purchasedAt = 2, quantity = 5, effectiveUnitCost = Finite 6\<rparr>]"
  have h1: "\<forall>l \<in> set ?ls. 0 < quantity l" by simp
  have h2: "(0::int) \<le> 12" by simp
  show ?thesis using applyFifo_conserves [OF h1 h2] by simp
qed

section \<open>Aging classification and discount suggestion\<close>








section \<open>Pricing and discount validation\<close>




section \<open>Rejected requests\<close>

lemma transaction_rollback:
  "snd (transaction body db) = Inl e \<Longrightarrow> fst (transaction body db) = db"
  by (auto simp: transaction_def split: prod.splits sum.splits)


lemma createPurchase_rollback:
  "snd (createPurchase now payload db) = Inl e \<Longrightarrow> fst (createPurchase now payload db) = db"
  by (auto simp: createPurchase_def Let_def transaction_rollback
      split: number.splits option.splits if_splits)



text \<open>
  Inside the transaction of a purchase the rows are written before the product is looked
  up: a purchase without a matching product fails after its item row has been written
  (and is then rolled back). The checks of the supplier, the variants and the date come
  before the first write.
\<close>

lemma purchaseBody_writes_before_failing:
  "purchaseItems (fst (purchaseBody exampleNow (purchaseOf [(''VAR-SAREE-RED'', 3, 10)] 100)
      (Finite 3) 100 (exampleStore\<lparr>products := []\<rparr>)))
   = [\<lparr>pi_purchaseId = 0, pi_productVariantId = ''VAR-SAREE-RED'', pi_quantity = 3,
       pi_unitCost = 10, pi_effectiveUnitCost = 4333 / 100\<rparr>]"
  by code_simp

lemma purchaseItemsLoop_errors:
  "purchaseItemsLoop pid sid totalQty extra its db = (db', Some e) \<Longrightarrow>
   e = StoreRejectsValue \<or> (\<exists>v. e = ForeignKeyFailed v \<or> e = NoMatchingProduct v)"
proof (induction its arbitrary: db)
  case Nil
  then show ?case by simp
next
  case (Cons it its)
  show ?case
  proof (cases "pin_quantity it")
    case NotFinite
    with Cons.prems show ?thesis by simp
  next
    case q: (Finite qty)
    show ?thesis
    proof (cases "pin_unitCost it")
      case NotFinite
      with Cons.prems q show ?thesis by simp
    next
      case (Finite cost)
      with Cons.prems q Cons.IH show ?thesis
        by (auto simp: Let_def split: if_splits)
    qed
  qed
qed

lemma purchaseBody_Inl:
  "purchaseBody now payload totalQty extraNum db = (db', Inl e) \<Longrightarrow>
   db' = db \<or> (\<exists>pid sid its d. purchaseItemsLoop pid sid totalQty extraNum its d = (db', Some e))"
  unfolding purchaseBody_def Let_def
  by (simp split: if_split_asm option.splits dateInput.splits prod.splits) blast+

lemma purchaseBody_checks_before_writes:
  assumes "purchaseBody now payload totalQty extraNum db = (db', Inl e)"
    and "e = SupplierNotFound \<or> (\<exists>v. e = VariantNotFound v) \<or> e = PurchasedAtInvalid"
  shows "db' = db"
  using purchaseBody_Inl [OF assms(1)] purchaseItemsLoop_errors [of _ _ totalQty extraNum _ _ db' e]
    assms(2)
  by auto

section \<open>Stock and payment checks of a sale\<close>

text \<open>
  Claim C1 fails on the code. Each item of a sale is checked against the stock read before
  the loop, so two items naming the same SKU each pass with 5 of 9 units, and the two
  decrements leave the product at -1: the sale is accepted, not rejected with
  InsufficientStock.
\<close>

theorem createSale_duplicate_sku_oversells:
  "snd (createSale exampleNow
          (saleOf [(''saree-red-ban-0001'', 5, 2200), (''saree-red-ban-0001'', 5, 2200)] 22000)
          exampleStore)
     = Inr \<lparr>saleId = 0, r_billNumber = ''BILL-20260205-0001'', r_totalAmount = 22000,
            r_soldAt = 1770278400000\<rparr>
   \<and> map quantityInStock (products (fst (createSale exampleNow
          (saleOf [(''saree-red-ban-0001'', 5, 2200), (''saree-red-ban-0001'', 5, 2200)] 22000)
          exampleStore)))
     = [- 1, 4]"
  by code_simp

theorem createSale_duplicate_sku_oversells_witness:
  "\<exists>p \<in> set (products (fst (createSale exampleNow
          (saleOf [(''saree-red-ban-0001'', 5, 2200), (''saree-red-ban-0001'', 5, 2200)] 22000)
          exampleStore))). quantityInStock p < 0"
proof -
  have "\<exists>q \<in> set [- 1, 4 :: int]. q < 0" by simp
  then have "\<exists>q \<in> set (map quantityInStock (products (fst (createSale exampleNow
          (saleOf [(''saree-red-ban-0001'', 5, 2200), (''saree-red-ban-0001'', 5, 2200)] 22000)
          exampleStore)))). q < 0"
    using createSale_duplicate_sku_oversells by simp
  then show ?thesis by auto
qed

text \<open>
  Claim C2 fails on the code. The tolerance constant is 1 in the unit of the amounts, not
  0.01: a payment of 2201 for a sale of 2200 is accepted although the two differ by more
  than 0.01.
\<close>

theorem validateAndCompute_accepts_unit_overpayment:
  "validateAndCompute exampleStore
     (sp_items (saleOf [(''saree-red-ban-0001'', 1, 2200)] 2201))
     (sp_payments (saleOf [(''saree-red-ban-0001'', 1, 2200)] 2201))
     = Inr \<lparr>lineTotals = [\<lparr>row_product = hd (products exampleStore), row_quantity = 1,
                             row_unitPrice = 2200, row_lineTotal = 2200\<rparr>],
            normalizedPayments = [\<lparr>np_mode = ''CASH'', np_provider = None, np_amount = 2201\<rparr>],
            v_totalAmount = 2200\<rparr>
   \<and> \<bar>round2 2201 - round2 (round2 (1 * 2200))\<bar> > 1 / 100"
  by code_simp

theorem validateAndCompute_accepts_unit_overpayment_witness:
  "validateAndCompute exampleStore
     (sp_items (saleOf [(''saree-red-ban-0001'', 1, 2200)] 2201))
     (sp_payments (saleOf [(''saree-red-ban-0001'', 1, 2200)] 2201))
     \<noteq> Inl PaymentMismatch"
  using validateAndCompute_accepts_unit_overpayment by simp

section \<open>Landed cost of a purchase\<close>

lemma incrementStock_frame [simp]:
  "purchaseItems (incrementStock vid sid n db) = purchaseItems db"
  "variants (incrementStock vid sid n db) = variants db"
  by (simp_all add: incrementStock_def)





lemma transaction_Inr:
  "transaction body db = (db', Inr r) \<Longrightarrow> body db = (db', Inr r)"
  by (auto simp: transaction_def split: prod.splits sum.splits)




section \<open>Bill numbers\<close>

lemma of_char_digitChar: "d < 10 \<Longrightarrow> (of_char (digitChar d) :: nat) = 48 + d"
  by (simp add: digitChar_def)

lemma isDigit_digitChar: "d < 10 \<Longrightarrow> isDigit (digitChar d)"
  by (simp add: isDigit_def of_char_digitChar)

lemma digitVal_digitChar: "d < 10 \<Longrightarrow> digitVal (digitChar d) = d"
  by (simp add: digitVal_def of_char_digitChar)

lemma isDigit_zero: "isDigit CHR ''0''" and digitVal_zero: "digitVal CHR ''0'' = 0"
  by (simp_all add: isDigit_def digitVal_def)

lemma isDigit_not_space: "isDigit ch \<Longrightarrow> \<not> isSpace ch"
  by (auto simp: isDigit_def isSpace_def)

lemma isDigit_not_sign: "isDigit ch \<Longrightarrow> ch \<noteq> CHR ''-'' \<and> ch \<noteq> CHR ''+''"
  by (auto simp: isDigit_def)

lemma showNat_digits: "\<forall>ch \<in> set (showNat n). isDigit ch"
proof (induction n rule: showNat.induct)
  case (1 n)
  show ?case
  proof (cases "n < 10")
    case True
    then show ?thesis by (subst showNat.simps) (simp add: isDigit_digitChar)
  next
    case False
    then show ?thesis
      using "1.IH" by (subst showNat.simps) (simp add: isDigit_digitChar)
  qed
qed

lemma showNat_nonempty: "showNat n \<noteq> []"
  by (subst showNat.simps) simp

lemma digitsVal_snoc: "digitsVal (xs @ [ch]) = 10 * digitsVal xs + digitVal ch"
  by (simp add: digitsVal_def)

lemma digitsVal_showNat: "digitsVal (showNat n) = n"
proof (induction n rule: showNat.induct)
  case (1 n)
  show ?case
  proof (cases "n < 10")
    case True
    then show ?thesis
      by (subst showNat.simps) (simp add: digitsVal_def digitVal_digitChar)
  next
    case False
    then have "digitsVal (showNat (n div 10)) = n div 10" using "1.IH" by simp
    then show ?thesis
      using False by (subst showNat.simps) (simp add: digitsVal_snoc digitVal_digitChar)
  qed
qed

lemma foldl_digits_zeros:
  "foldl (\<lambda>acc ch. 10 * acc + digitVal ch) 0 (replicate k CHR ''0'') = 0"
  by (induction k) (simp_all add: digitVal_zero)

lemma digitsVal_padStart0: "digitsVal (padStart0 k s) = digitsVal s"
  by (simp add: padStart0_def digitsVal_def foldl_digits_zeros)

lemma padStart0_digits:
  "\<forall>ch \<in> set s. isDigit ch \<Longrightarrow> \<forall>ch \<in> set (padStart0 k s). isDigit ch"
  by (auto simp: padStart0_def isDigit_zero)

lemma padStart0_nonempty: "s \<noteq> [] \<Longrightarrow> padStart0 k s \<noteq> []"
  by (simp add: padStart0_def)

lemma parseInt10_digits:
  assumes "s \<noteq> []" and "\<forall>ch \<in> set s. isDigit ch"
  shows "parseInt10 s = Some (int (digitsVal s))"
proof -
  from assms obtain ch r where s: "s = ch # r" by (cases s) auto
  with assms have d: "isDigit ch" by simp
  have tw: "takeWhile isDigit r = r" using assms(2) s by (simp add: takeWhile_eq_all_conv)
  show ?thesis
    unfolding parseInt10_def
    using s d isDigit_not_sign [OF d] isDigit_not_space [OF d] tw
    by (simp add: Let_def takeWhile_eq_all_conv [THEN iffD2])
qed

lemma parseInt10_padded: "parseInt10 (padStart0 k (showNat n)) = Some (int n)"
proof -
  have ne: "padStart0 k (showNat n) \<noteq> []"
    by (rule padStart0_nonempty [OF showNat_nonempty])
  have ds: "\<forall>ch \<in> set (padStart0 k (showNat n)). isDigit ch"
    by (rule padStart0_digits [OF showNat_digits])
  show ?thesis
    using parseInt10_digits [OF ne ds] by (simp add: digitsVal_padStart0 digitsVal_showNat)
qed

lemma nextSeq_of_bill:
  "nextSeq pre (Some (pre @ padStart0 4 (showNat k))) = Suc k"
  using padStart0_nonempty [OF showNat_nonempty, of 4 k]
  by (simp add: nextSeq_def parseInt10_padded)

lemma fold_max_in: "fold max bs (b :: 'a :: linorder) \<in> set (b # bs)"
proof (induction bs arbitrary: b)
  case Nil
  show ?case by simp
next
  case (Cons x bs)
  have "fold max bs (max x b) \<in> set (max x b # bs)" by (rule Cons.IH)
  moreover have "max x b = x \<or> max x b = b" by (simp add: max_def)
  ultimately show ?case by auto
qed

lemma lastBillNumber_None:
  "filter (prefix pre) (map billNumber (sales db)) = [] \<Longrightarrow> lastBillNumber db pre = None"
  by (simp add: lastBillNumber_def)

lemma lastBillNumber_Some:
  "filter (prefix pre) (map billNumber (sales db)) \<noteq> [] \<Longrightarrow>
   \<exists>b \<in> set (filter (prefix pre) (map billNumber (sales db))). lastBillNumber db pre = Some b"
proof -
  assume ne: "filter (prefix pre) (map billNumber (sales db)) \<noteq> []"
  then obtain b bs where e: "filter (prefix pre) (map billNumber (sales db)) = b # bs"
    by (cases "filter (prefix pre) (map billNumber (sales db))") auto
  have "lastBillNumber db pre = Some (fold max bs b)"
    by (simp add: lastBillNumber_def e)
  moreover have "fold max bs b \<in> set (b # bs)" by (rule fold_max_in)
  ultimately show ?thesis using e by metis
qed

lemma sales_fold_decrementStock:
  "sales (fold (\<lambda>row. decrementStock (product_id (row_product row)) (row_quantity row)) rows db)
   = sales db"
  by (induction rows arbitrary: db) (simp_all add: decrementStock_def)

lemma saleBody_Inr:
  assumes "saleBody now payload db = (db', Inr r)"
  shows "r_billNumber r = billPrefix now @
           padStart0 4 (showNat (nextSeq (billPrefix now) (lastBillNumber db (billPrefix now))))
         \<and> r_billNumber r \<notin> set (map billNumber (sales db))
         \<and> map billNumber (sales db') = map billNumber (sales db) @ [r_billNumber r]"
  using assms
  by (auto simp: saleBody_def Let_def sales_fold_decrementStock split: sum.splits if_splits)

lemma createSale_next_bill:
  assumes ok: "createSale now payload db = (db', Inr r)"
    and issued: "filter (prefix (billPrefix now)) (map billNumber (sales db))
                 = map (\<lambda>k. billPrefix now @ padStart0 4 (showNat k)) [1..<Suc m]"
  shows "r_billNumber r = billPrefix now @ padStart0 4 (showNat (Suc m))"
    and "filter (prefix (billPrefix now)) (map billNumber (sales db'))
         = map (\<lambda>k. billPrefix now @ padStart0 4 (showNat k)) [1..<Suc (Suc m)]"
proof -
  let ?pre = "billPrefix now"
  let ?bill = "\<lambda>k. ?pre @ padStart0 4 (showNat k)"
  let ?day = "filter (prefix ?pre) (map billNumber (sales db))"
  from ok have body: "saleBody now payload db = (db', Inr r)"
    unfolding createSale_def by (rule transaction_Inr)
  note b = saleBody_Inr [OF body]
  have seq: "nextSeq ?pre (lastBillNumber db ?pre) = Suc m"
  proof (cases m)
    case 0
    with issued have "?day = []" by simp
    then have "lastBillNumber db ?pre = None" by (rule lastBillNumber_None)
    with 0 show ?thesis by (simp add: nextSeq_def)
  next
    case (Suc m')
    with issued have "?day \<noteq> []" by simp
    from lastBillNumber_Some [OF this] obtain bl where
      bl: "bl \<in> set ?day" "lastBillNumber db ?pre = Some bl" by blast
    from bl(1) issued obtain k where k: "1 \<le> k" "k \<le> m" "bl = ?bill k" by auto
    have nx: "nextSeq ?pre (lastBillNumber db ?pre) = Suc k"
      using bl(2) k(3) by (simp add: nextSeq_of_bill)
    have "k = m"
    proof (rule ccontr)
      assume "k \<noteq> m"
      with k have "Suc k \<in> set [1..<Suc m]" by auto
      then have "?bill (Suc k) \<in> set (map ?bill [1..<Suc m])" unfolding set_map by (rule imageI)
      with issued have "?bill (Suc k) \<in> set ?day" by simp
      then have "?bill (Suc k) \<in> set (map billNumber (sales db))" by simp
      with b nx show False by auto
    qed
    with nx show ?thesis by simp
  qed
  have bill: "r_billNumber r = ?bill (Suc m)" using b seq by auto
  have "filter (prefix ?pre) (map billNumber (sales db')) = ?day @ [?bill (Suc m)]"
    using b bill by auto
  with issued have "filter (prefix ?pre) (map billNumber (sales db'))
      = map ?bill [1..<Suc (Suc m)]" by simp
  with bill show "r_billNumber r = ?bill (Suc m)"
    and "filter (prefix ?pre) (map billNumber (sales db')) = map ?bill [1..<Suc (Suc m)]"
    by simp_all
qed



text \<open>
  Sequential issuance is an invariant of the store: it holds while there is no sale, and
  every sale and every purchase, accepted or rejected, on any day, preserves it for all
  days. So the hypothesis on the bills of the day holds in every store reached from one
  without sales by sales and purchases.
\<close>

lemma not_isDigit_dash: "\<not> isDigit CHR ''-''"
  by (simp add: isDigit_def)

lemma takeWhile_digits_dash:
  "\<forall>ch \<in> set ds. isDigit ch \<Longrightarrow> takeWhile isDigit (ds @ CHR ''-'' # rest) = ds"
  by (simp add: takeWhile_append2 not_isDigit_dash)

lemma billPrefix_shape:
  "\<exists>ds. (\<forall>ch \<in> set ds. isDigit ch) \<and> billPrefix now = ''BILL-'' @ ds @ ''-''"
proof -
  let ?ds = "showNat (fullYear now) @ padStart0 2 (showNat (monthIndex now + 1))
             @ padStart0 2 (showNat (dayOfMonth now))"
  have "\<forall>ch \<in> set ?ds. isDigit ch"
    using showNat_digits padStart0_digits [OF showNat_digits] by auto
  moreover have "billPrefix now = ''BILL-'' @ ?ds @ ''-''" by (simp add: billPrefix_def)
  ultimately show ?thesis by blast
qed

lemma prefix_bill_same_day:
  assumes "prefix (billPrefix now') (billPrefix now @ sfx)"
  shows "billPrefix now' = billPrefix now"
proof -
  from billPrefix_shape [of now] obtain ds where
    ds: "\<forall>ch \<in> set ds. isDigit ch" "billPrefix now = ''BILL-'' @ ds @ ''-''" by blast
  from billPrefix_shape [of now'] obtain ds' where
    ds': "\<forall>ch \<in> set ds'. isDigit ch" "billPrefix now' = ''BILL-'' @ ds' @ ''-''" by blast
  from assms ds(2) ds'(2) have "prefix (ds' @ ''-'') (ds @ ''-'' @ sfx)" by simp
  then obtain rest where "ds @ CHR ''-'' # sfx = ds' @ CHR ''-'' # rest"
    by (auto simp: prefix_def)
  then have "takeWhile isDigit (ds @ CHR ''-'' # sfx) = takeWhile isDigit (ds' @ CHR ''-'' # rest)"
    by simp
  then have "ds = ds'"
    by (simp only: takeWhile_digits_dash [OF ds(1)] takeWhile_digits_dash [OF ds'(1)])
  with ds(2) ds'(2) show ?thesis by simp
qed

lemma sales_purchaseItemsLoop:
  "sales (fst (purchaseItemsLoop pid sid totalQty extra its db)) = sales db"
proof (induction its arbitrary: db)
  case Nil
  show ?case by simp
next
  case (Cons it its)
  show ?case
    by (simp add: Let_def Cons.IH incrementStock_def split: number.splits)
qed

lemma fst_loop_outcome:
  "fst (case x of (d, Some e) \<Rightarrow> (d, Inl e) | (d, None) \<Rightarrow> (d, Inr r)) = fst x"
  by (cases x) (auto split: option.splits)

lemma sales_purchaseBody:
  "sales (fst (purchaseBody now payload totalQty extraNum db)) = sales db"
  by (simp add: purchaseBody_def Let_def fst_loop_outcome sales_purchaseItemsLoop
      split: option.splits dateInput.splits)

lemma sales_createPurchase:
  "sales (fst (createPurchase now payload db)) = sales db"
proof (cases "snd (createPurchase now payload db)")
  case (Inl e)
  then show ?thesis by (simp add: createPurchase_rollback)
next
  case (Inr r)
  then have ok: "createPurchase now payload db = (fst (createPurchase now payload db), Inr r)"
    by (simp add: prod_eq_iff)
  then obtain totalQty extraNum where
    "transaction (purchaseBody now payload totalQty extraNum) db
       = (fst (createPurchase now payload db), Inr r)"
    by (auto simp: createPurchase_def Let_def split: if_splits number.splits option.splits)
  from transaction_Inr [OF this]
  have "fst (purchaseBody now payload totalQty extraNum db) = fst (createPurchase now payload db)"
    by simp
  then show ?thesis using sales_purchaseBody [of now payload totalQty extraNum db] by simp
qed

lemma issuedInSequence_initial: "sales db = [] \<Longrightarrow> issuedInSequence db"
  unfolding issuedInSequence_def by (intro allI exI [of _ 0]) simp

lemma issuedInSequence_createPurchase:
  "issuedInSequence db \<Longrightarrow> issuedInSequence (fst (createPurchase now payload db))"
  by (simp add: issuedInSequence_def sales_createPurchase)

lemma issuedInSequence_createSale:
  assumes inv: "issuedInSequence db"
  shows "issuedInSequence (fst (createSale now payload db))"
proof (cases "snd (createSale now payload db)")
  case (Inl e)
  then have "fst (createSale now payload db) = db"
    unfolding createSale_def by (rule transaction_rollback)
  with inv show ?thesis by simp
next
  case (Inr r)
  let ?db' = "fst (createSale now payload db)"
  let ?bill = "\<lambda>pre k. pre @ padStart0 4 (showNat k)"
  from Inr have ok: "createSale now payload db = (?db', Inr r)" by (simp add: prod_eq_iff)
  from inv obtain m where
    m: "filter (prefix (billPrefix now)) (map billNumber (sales db))
        = map (?bill (billPrefix now)) [1..<Suc m]"
    unfolding issuedInSequence_def by blast
  note c = createSale_next_bill [OF ok m]
  from ok have "saleBody now payload db = (?db', Inr r)"
    unfolding createSale_def by (rule transaction_Inr)
  from saleBody_Inr [OF this]
  have app: "map billNumber (sales ?db') = map billNumber (sales db) @ [r_billNumber r]" by simp
  show ?thesis
    unfolding issuedInSequence_def
  proof
    fix now'
    show "\<exists>m'. filter (prefix (billPrefix now')) (map billNumber (sales ?db'))
               = map (?bill (billPrefix now')) [1..<Suc m']"
    proof (cases "prefix (billPrefix now') (r_billNumber r)")
      case True
      with c(1) have same: "billPrefix now' = billPrefix now"
        using prefix_bill_same_day [of now' now "padStart0 4 (showNat (Suc m))"] by simp
      show ?thesis unfolding same using c(2) by blast
    next
      case False
      with app have "filter (prefix (billPrefix now')) (map billNumber (sales ?db'))
                     = filter (prefix (billPrefix now')) (map billNumber (sales db))" by simp
      with inv show ?thesis unfolding issuedInSequence_def by simp
    qed
  qed
qed

text \<open>
  The lookup orders bill numbers as strings, and the string 9999 is greater than the string
  10000. Once a day holds bill 10000 the lookup still returns 9999, the next number is
  10000 again, and the insert fails on the unique index: the sale is not carried out.
\<close>

lemma digitChar_table:
  "digitChar 0 = CHR ''0''" "digitChar 1 = CHR ''1''" "digitChar 2 = CHR ''2''"
  "digitChar 3 = CHR ''3''" "digitChar 4 = CHR ''4''" "digitChar 5 = CHR ''5''"
  "digitChar 6 = CHR ''6''" "digitChar 7 = CHR ''7''" "digitChar 8 = CHR ''8''"
  "digitChar 9 = CHR ''9''" "digitChar (Suc 0) = CHR ''1''" "digitChar (Suc (Suc 0)) = CHR ''2''"
  by code_simp+

lemma createSale_after_bill_10000:
  "snd (createSale exampleNow (saleOf [(''saree-red-ban-0001'', 1, 2200)] 2200)
       (exampleStore\<lparr>sales :=
          [\<lparr>sale_id = 0, billNumber = ''BILL-20260205-9999'', totalAmount = 2200,
            soldAt = 1770278400000\<rparr>,
           \<lparr>sale_id = 1, billNumber = ''BILL-20260205-10000'', totalAmount = 2200,
            soldAt = 1770278400000\<rparr>]\<rparr>))
     = Inl (UniqueConstraintFailed ''BILL-20260205-10000'')"
proof -
  let ?db = "exampleStore\<lparr>sales :=
          [\<lparr>sale_id = 0, billNumber = ''BILL-20260205-9999'', totalAmount = 2200,
            soldAt = 1770278400000\<rparr>,
           \<lparr>sale_id = 1, billNumber = ''BILL-20260205-10000'', totalAmount = 2200,
            soldAt = 1770278400000\<rparr>]\<rparr>"
  let ?p = "saleOf [(''saree-red-ban-0001'', 1, 2200)] 2200"
  have f1: "validateAndCompute ?db (sp_items ?p) (sp_payments ?p)
      = Inr \<lparr>lineTotals = [\<lparr>row_product = hd (products exampleStore), row_quantity = 1,
                               row_unitPrice = 2200, row_lineTotal = 2200\<rparr>],
              normalizedPayments = [\<lparr>np_mode = ''CASH'', np_provider = None, np_amount = 2200\<rparr>],
              v_totalAmount = 2200\<rparr>"
    by code_simp
  have f2: "billPrefix exampleNow = ''BILL-20260205-''"
    by (simp add: billPrefix_def showNat.simps digitChar_table padStart0_def)
  have f3: "lastBillNumber ?db ''BILL-20260205-'' = Some ''BILL-20260205-9999''" by code_simp
  have f4: "nextSeq ''BILL-20260205-'' (Some ''BILL-20260205-9999'') = 10000"
    by (simp add: nextSeq_def parseInt10_def isSpace_def isDigit_def digitsVal_def digitVal_def)
  have f5: "''BILL-20260205-'' @ padStart0 4 (showNat 10000) = ''BILL-20260205-10000''"
    by (simp add: showNat.simps digitChar_table padStart0_def)
  have "saleBody exampleNow ?p ?db = (?db, Inl (UniqueConstraintFailed ''BILL-20260205-10000''))"
    unfolding saleBody_def f1 Let_def f2 f3 f4 f5 by simp
  then show ?thesis by (simp add: createSale_def transaction_def)
qed

section \<open>Stock after a sale of distinct SKUs\<close>

text \<open>
  When no SKU is named twice in a sale, the check of each item against the stock read
  before the loop is enough: on a store whose products have distinct identifiers and
  non-negative stock, the stock is non-negative after the sale, accepted or rejected.
\<close>

lemma productsBySku_Some:
  "productsBySku db skus s = Some p \<Longrightarrow> p \<in> set (products db) \<and> sku p = s"
  unfolding productsBySku_def by (auto dest!: map_of_SomeD)

lemma itemsLoop_rows:
  "itemsLoop db bySku its lts running = Inr (lts', running') \<Longrightarrow>
   \<exists>new. lts' = lts @ new
     \<and> list_all2 (\<lambda>it row. bySku (item_sku it) = Some (row_product row)
                     \<and> 1 \<le> row_quantity row
                     \<and> row_quantity row \<le> quantityInStock (row_product row)) its new"
proof (induction its arbitrary: lts running)
  case Nil
  then show ?case by simp
next
  case (Cons it its)
  from Cons.prems obtain pr qty sp where
    f: "bySku (item_sku it) = Some pr" "item_quantity it = Finite qty" "isInteger qty" "1 \<le> qty"
       "\<not> of_int (quantityInStock pr) < qty"
    and step: "itemsLoop db bySku its
        (lts @ [\<lparr>row_product = pr, row_quantity = \<lfloor>qty\<rfloor>, row_unitPrice = sp,
                 row_lineTotal = round2 (qty * sp)\<rparr>]) (running + round2 (qty * sp))
        = Inr (lts', running')"
    by (auto simp: Let_def split: option.splits number.splits if_splits)
  from Cons.IH [OF step] obtain new where
    new: "lts' = (lts @ [\<lparr>row_product = pr, row_quantity = \<lfloor>qty\<rfloor>, row_unitPrice = sp,
                 row_lineTotal = round2 (qty * sp)\<rparr>]) @ new"
      "list_all2 (\<lambda>it row. bySku (item_sku it) = Some (row_product row)
                     \<and> 1 \<le> row_quantity row
                     \<and> row_quantity row \<le> quantityInStock (row_product row)) its new"
    by blast
  have "1 \<le> \<lfloor>qty\<rfloor>" using f(4) by (simp add: le_floor_iff)
  moreover have "\<lfloor>qty\<rfloor> \<le> quantityInStock pr"
  proof -
    have "qty \<le> rat_of_int (quantityInStock pr)" using f(5) by simp
    then have "\<lfloor>qty\<rfloor> \<le> \<lfloor>rat_of_int (quantityInStock pr)\<rfloor>" by (rule floor_mono)
    then show ?thesis by simp
  qed
  ultimately show ?case
    using new f(1)
    by (intro exI [of _ "\<lparr>row_product = pr, row_quantity = \<lfloor>qty\<rfloor>, row_unitPrice = sp,
                 row_lineTotal = round2 (qty * sp)\<rparr> # new"]) simp
qed

lemma products_decrementStock:
  "products (decrementStock pid n db)
   = map (\<lambda>p. if product_id p = pid then p\<lparr>quantityInStock := quantityInStock p - n\<rparr> else p)
       (products db)"
  by (simp add: decrementStock_def)

lemma fold_decrementStock_nonneg:
  assumes "distinct (map (\<lambda>row. product_id (row_product row)) rows)"
    and "\<forall>row \<in> set rows. \<forall>p \<in> set (products db).
           product_id p = product_id (row_product row) \<longrightarrow> row_quantity row \<le> quantityInStock p"
    and "\<forall>p \<in> set (products db). 0 \<le> quantityInStock p"
  shows "\<forall>p \<in> set (products
            (fold (\<lambda>row. decrementStock (product_id (row_product row)) (row_quantity row)) rows db)).
           0 \<le> quantityInStock p"
  using assms
proof (induction rows arbitrary: db)
  case Nil
  then show ?case by simp
next
  case (Cons row rows)
  let ?db1 = "decrementStock (product_id (row_product row)) (row_quantity row) db"
  have d: "distinct (map (\<lambda>row. product_id (row_product row)) rows)"
    using Cons.prems(1) by simp
  have nin: "product_id (row_product row)
             \<notin> (\<lambda>row. product_id (row_product row)) ` set rows"
    using Cons.prems(1) by simp
  have fresh: "\<forall>r \<in> set rows. product_id (row_product r) \<noteq> product_id (row_product row)"
  proof (intro ballI notI)
    fix r
    assume "r \<in> set rows" and "product_id (row_product r) = product_id (row_product row)"
    then have "product_id (row_product row) \<in> (\<lambda>row. product_id (row_product row)) ` set rows"
      by (metis imageI)
    with nin show False ..
  qed
  have a: "\<forall>r \<in> set rows. \<forall>p \<in> set (products ?db1).
           product_id p = product_id (row_product r) \<longrightarrow> row_quantity r \<le> quantityInStock p"
    using Cons.prems(2) fresh by (auto simp: products_decrementStock)
  have b: "\<forall>p \<in> set (products ?db1). 0 \<le> quantityInStock p"
    using Cons.prems(2,3) by (auto simp: products_decrementStock)
  from Cons.IH [OF d a b] show ?case by simp
qed

lemma products_fold_decrementStock:
  "products (fold (\<lambda>row. decrementStock (product_id (row_product row)) (row_quantity row)) rows db)
   = fold (\<lambda>row. map (\<lambda>p. if product_id p = product_id (row_product row)
                               then p\<lparr>quantityInStock := quantityInStock p - row_quantity row\<rparr>
                               else p)) rows (products db)"
  by (induction rows arbitrary: db) (simp_all add: products_decrementStock)

lemma saleBody_products:
  "saleBody now payload db = (db', Inr r) \<Longrightarrow>
   \<exists>v. validateAndCompute db (sp_items payload) (sp_payments payload) = Inr v
     \<and> products db' = products
          (fold (\<lambda>row. decrementStock (product_id (row_product row)) (row_quantity row))
             (lineTotals v) db)"
  by (auto simp: saleBody_def Let_def products_fold_decrementStock split: sum.splits if_splits)

lemma validateAndCompute_Inr:
  "validateAndCompute db its pays = Inr v \<Longrightarrow>
   \<exists>running. itemsLoop db
       (productsBySku db (uniqueInOrder (filter (\<lambda>s. s \<noteq> []) (map item_sku its)))) its [] 0
     = Inr (lineTotals v, running)"
  by (auto simp: validateAndCompute_def Let_def split: if_splits option.splits sum.splits)

lemma createSale_stock_nonneg:
  assumes sk: "distinct (map item_sku (sp_items payload))"
    and ids: "distinct (map product_id (products db))"
    and nn: "\<forall>p \<in> set (products db). 0 \<le> quantityInStock p"
  shows "\<forall>p \<in> set (products (fst (createSale now payload db))). 0 \<le> quantityInStock p"
proof (cases "snd (createSale now payload db)")
  case (Inl e)
  then have "fst (createSale now payload db) = db"
    unfolding createSale_def by (rule transaction_rollback)
  with nn show ?thesis by simp
next
  case (Inr r)
  let ?db' = "fst (createSale now payload db)"
  from Inr have "createSale now payload db = (?db', Inr r)" by (simp add: prod_eq_iff)
  then have "saleBody now payload db = (?db', Inr r)"
    unfolding createSale_def by (rule transaction_Inr)
  from saleBody_products [OF this] obtain v where
    v: "validateAndCompute db (sp_items payload) (sp_payments payload) = Inr v"
    and ps: "products ?db' = products
          (fold (\<lambda>row. decrementStock (product_id (row_product row)) (row_quantity row))
             (lineTotals v) db)" by blast
  define skus where
    "skus = uniqueInOrder (filter (\<lambda>s. s \<noteq> []) (map item_sku (sp_items payload)))"
  from validateAndCompute_Inr [OF v] obtain running where
    "itemsLoop db (productsBySku db skus) (sp_items payload) [] 0 = Inr (lineTotals v, running)"
    unfolding skus_def by blast
  from itemsLoop_rows [OF this] have rows:
    "list_all2 (\<lambda>it row. productsBySku db skus (item_sku it) = Some (row_product row)
                     \<and> 1 \<le> row_quantity row
                     \<and> row_quantity row \<le> quantityInStock (row_product row))
       (sp_items payload) (lineTotals v)" by simp
  have skus: "map (\<lambda>row. sku (row_product row)) (lineTotals v) = map item_sku (sp_items payload)"
    using rows by (induction rule: list_all2_induct) (auto dest: productsBySku_Some)
  have mem: "\<forall>row \<in> set (lineTotals v).
      row_product row \<in> set (products db) \<and> row_quantity row \<le> quantityInStock (row_product row)"
    using rows by (induction rule: list_all2_induct) (auto dest: productsBySku_Some)
  have inj: "inj_on product_id (set (products db))"
    using ids by (simp add: distinct_map)
  have d1: "distinct (map (\<lambda>row. sku (row_product row)) (lineTotals v))"
    using sk skus by simp
  have d2: "distinct (map (\<lambda>row. product_id (row_product row)) (lineTotals v))"
  proof -
    from d1 have dr: "distinct (lineTotals v)"
      and i1: "inj_on (\<lambda>row. sku (row_product row)) (set (lineTotals v))"
      by (simp_all add: distinct_map)
    have "inj_on (\<lambda>row. product_id (row_product row)) (set (lineTotals v))"
    proof (rule inj_onI)
      fix x y
      assume x: "x \<in> set (lineTotals v)" and y: "y \<in> set (lineTotals v)"
        and e: "product_id (row_product x) = product_id (row_product y)"
      from x y mem have "row_product x \<in> set (products db)" "row_product y \<in> set (products db)"
        by simp_all
      with inj e have "row_product x = row_product y" by (meson inj_onD)
      then have "sku (row_product x) = sku (row_product y)" by simp
      with i1 x y show "x = y" by (simp add: inj_on_def)
    qed
    with dr show ?thesis by (simp add: distinct_map)
  qed
  have q: "\<forall>row \<in> set (lineTotals v). \<forall>p \<in> set (products db).
           product_id p = product_id (row_product row) \<longrightarrow> row_quantity row \<le> quantityInStock p"
  proof (intro ballI impI)
    fix row p
    assume row: "row \<in> set (lineTotals v)" and p: "p \<in> set (products db)"
      and e: "product_id p = product_id (row_product row)"
    from row mem have m: "row_product row \<in> set (products db)"
      "row_quantity row \<le> quantityInStock (row_product row)" by simp_all
    from inj e p m(1) have "p = row_product row" by (meson inj_onD)
    with m(2) show "row_quantity row \<le> quantityInStock p" by simp
  qed
  from fold_decrementStock_nonneg [OF d2 q nn] ps show ?thesis by simp
qed

end
